theory Spec2Isabelle
  imports Complex_Main "HOL-Library.Word"
begin

section \<open>Audio codec (src/services/gemini.ts)\<close>

text \<open>
  Bytes are 8-bit words. Exceptions of the platform are values of \<open>error\<close>; a function
  that can throw returns \<open>error + 'a\<close> with \<open>Inl\<close> for the exception.
\<close>

type_synonym byte = "8 word"

datatype error = RangeError | NotSupportedError

text \<open>
  An element of a \<open>Float32Array\<close>. Every number stored by the code below is a 16-bit
  integer divided by \<open>2 ^ 15\<close>, which single and double precision both hold exactly, so
  finite samples are real numbers; \<open>NaN\<close> is what \<open>undefined / 32768.0\<close> evaluates to.
\<close>

datatype f32 = Num real | NaN

text \<open>A sample is in the nominal range when it is a number between -1 and 1.\<close>

fun inUnitRange :: "f32 \<Rightarrow> bool" where
  "inUnitRange (Num v) \<longleftrightarrow> - 1 \<le> v \<and> v \<le> 1"
| "inUnitRange NaN \<longleftrightarrow> False"

text \<open>
  The parts of an \<open>AudioContext\<close> that \<open>createBuffer\<close> consults: the limits of the
  implementation (the Web Audio API requires at least 32 channels and the rates 8000 to
  96000 Hz to be supported).
\<close>

record AudioContext =
  maxChannels :: nat
  minSampleRate :: nat
  maxSampleRate :: nat

record AudioBuffer =
  sampleRate :: nat
  channels :: "f32 list list"

definition numberOfChannels :: "AudioBuffer \<Rightarrow> nat" where
  "numberOfChannels b = length (channels b)"

definition frames :: "AudioBuffer \<Rightarrow> nat" where
  "frames b = (case channels b of [] \<Rightarrow> 0 | c # _ \<Rightarrow> length c)"

definition duration :: "AudioBuffer \<Rightarrow> real" where
  "duration b = real (frames b) / real (sampleRate b)"

text \<open>
  \<open>new Int16Array(data.buffer)\<close>: a view of the bytes as little-endian signed 16-bit
  integers. The constructor throws a RangeError when the byte length of the buffer is
  not a multiple of 2. (\<open>data\<close> comes from \<open>decodeBase64\<close>, so its buffer holds exactly
  the bytes of \<open>data\<close>.)
\<close>

fun int16s :: "byte list \<Rightarrow> int list" where
  "int16s (lo # hi # rest) = sint (word_cat hi lo :: 16 word) # int16s rest"
| "int16s _ = []"

definition newInt16Array :: "byte list \<Rightarrow> error + int list" where
  "newInt16Array data = (if odd (length data) then Inl RangeError else Inr (int16s data))"

text \<open>
  \<open>ctx.createBuffer(numberOfChannels, length, sampleRate)\<close>. The length argument is an
  \<open>unsigned long\<close>: a fractional number is truncated (payloads are far shorter than
  \<open>2 ^ 32\<close> frames, so the conversion is plain truncation). The call throws a
  NotSupportedError when the channel count or the length is zero or an argument is
  outside the supported range; otherwise the buffer is filled with zeros.
\<close>

definition createBuffer :: "AudioContext \<Rightarrow> nat \<Rightarrow> real \<Rightarrow> nat \<Rightarrow> error + AudioBuffer" where
  "createBuffer ctx numChannels len rate =
     (if numChannels = 0 \<or> maxChannels ctx < numChannels \<or> nat \<lfloor>len\<rfloor> = 0
         \<or> rate < minSampleRate ctx \<or> maxSampleRate ctx < rate
      then Inl NotSupportedError
      else Inr \<lparr>sampleRate = rate,
                channels = replicate numChannels (replicate (nat \<lfloor>len\<rfloor>) (Num 0))\<rparr>)"

text \<open>
  Reading a typed array past its end gives \<open>undefined\<close> (here \<open>None\<close>); a store past
  the end is ignored.
\<close>

definition readInt16 :: "int list \<Rightarrow> nat \<Rightarrow> int option" where
  "readInt16 a k = (if k < length a then Some (a ! k) else None)"

definition storeF32 :: "f32 list \<Rightarrow> nat \<Rightarrow> f32 \<Rightarrow> f32 list" where
  "storeF32 a i v = (if i < length a then a[i := v] else a)"

fun scaleSample :: "int option \<Rightarrow> f32" where
  "scaleSample (Some v) = Num (real_of_int v / 32768)"
| "scaleSample None = NaN"

text \<open>
  The inner loop \<open>for (let i = 0; i < frameCount; i++) channelData[i] = dataInt16[i *
  numChannels + channel] / 32768.0\<close>. \<open>frameCount\<close> is a number that need not be
  whole; the loop runs for the indices \<open>i < \<lceil>frameCount\<rceil>\<close>.
\<close>

definition fillChannel :: "int list \<Rightarrow> nat \<Rightarrow> nat \<Rightarrow> real \<Rightarrow> f32 list \<Rightarrow> f32 list" where
  "fillChannel dataInt16 numChannels channel frameCount channelData =
     fold (\<lambda>i cd. storeF32 cd i (scaleSample (readInt16 dataInt16 (i * numChannels + channel))))
       [0 ..< nat \<lceil>frameCount\<rceil>] channelData"

definition fillChannels :: "int list \<Rightarrow> nat \<Rightarrow> real \<Rightarrow> f32 list list \<Rightarrow> f32 list list" where
  "fillChannels dataInt16 numChannels frameCount chans =
     fold (\<lambda>channel cs. cs[channel := fillChannel dataInt16 numChannels channel frameCount (cs ! channel)])
       [0 ..< numChannels] chans"

text \<open>
  \<open>decodeAudioData(data, ctx, sampleRate = 24000, numChannels = 1)\<close>. With
  \<open>numChannels = 0\<close> the quotient \<open>frameCount\<close> is infinite or NaN in the source;
  \<open>createBuffer\<close> rejects the channel count whatever the length is, so the value of the
  quotient is not used then.
\<close>

definition decodeAudioData :: "byte list \<Rightarrow> AudioContext \<Rightarrow> nat \<Rightarrow> nat \<Rightarrow> error + AudioBuffer" where
  "decodeAudioData data ctx rate numChannels =
     (case newInt16Array data of
        Inl e \<Rightarrow> Inl e
      | Inr dataInt16 \<Rightarrow>
          let frameCount = real (length dataInt16) / real numChannels in
          (case createBuffer ctx numChannels frameCount rate of
             Inl e \<Rightarrow> Inl e
           | Inr buffer \<Rightarrow>
               Inr (buffer\<lparr>channels := fillChannels dataInt16 numChannels frameCount (channels buffer)\<rparr>)))"

subsection \<open>Microphone capture (src/unnamed/part_000, LiveSession)\<close>

text \<open>
  Storing a number in an \<open>Int16Array\<close> applies ToInt16: the number is truncated towards
  zero, reduced modulo \<open>2 ^ 16\<close> and read as a two's-complement value. The samples of
  the input buffer are single-precision numbers, so the product with 32768 is exact and
  finite samples are modelled as reals.
\<close>

definition trunc :: "real \<Rightarrow> int" where
  "trunc x = (if 0 \<le> x then \<lfloor>x\<rfloor> else \<lceil>x\<rceil>)"

definition toInt16 :: "real \<Rightarrow> 16 word" where
  "toInt16 x = word_of_int (trunc x)"

text \<open>
  \<open>for (let i = 0; i < inputData.length; i++) int16[i] = inputData[i] * 32768\<close>
\<close>

definition encodeSample :: "real \<Rightarrow> 16 word" where
  "encodeSample v = toInt16 (v * 32768)"

definition onaudioprocess :: "real list \<Rightarrow> 16 word list" where
  "onaudioprocess inputData = map encodeSample inputData"

section \<open>Streaming session (src/unnamed/part_000, LiveSession)\<close>

text \<open>
  The state of the component is the two refs \<open>nextStartTimeRef\<close> and \<open>sourcesRef\<close>,
  together with what has happened to the source nodes of the output context: every
  node that was created is started at once, so \<open>started\<close> lists them in creation order
  and a node is identified by its position in that list; \<open>stopped\<close> holds the nodes on
  which \<open>stop()\<close> has been called. \<open>sourcesRef\<close> is a JavaScript \<open>Set\<close>, kept here in
  insertion order.
\<close>

record ScheduledSource =
  startAt :: real
  playDuration :: real

record LiveSession =
  nextStartTimeRef :: real
  sourcesRef :: "nat list"
  started :: "ScheduledSource list"
  stopped :: "nat set"

definition newLiveSession :: LiveSession where
  "newLiveSession = \<lparr>nextStartTimeRef = 0, sourcesRef = [], started = [], stopped = {}\<rparr>"

text \<open>
  A message of the server, as far as \<open>onmessage\<close> reads it. \<open>inlineData\<close> is
  \<open>msg.serverContent?.modelTurn?.parts[0]?.inlineData?.data\<close> after \<open>decodeBase64\<close>:
  \<open>None\<close> when the field is absent or the empty string (the \<open>if (base64 && \<dots>)\<close> test
  fails), \<open>Some bytes\<close> otherwise.
\<close>

record ServerMessage =
  inlineData :: "byte list option"
  interrupted :: bool

definition setAdd :: "nat \<Rightarrow> nat list \<Rightarrow> nat list" where
  "setAdd h hs = (if h \<in> set hs then hs else hs @ [h])"

text \<open>
  Lines 39 to 45: create a source for the decoded buffer, move the cursor up to the
  output clock, start the source at the cursor, advance the cursor by the duration of
  the buffer and add the source to the set. \<open>now\<close> is
  \<open>audioContextRef.current.currentTime\<close>; the clock of an audio context is never
  negative, so \<open>start\<close> is not called with a negative time and does not throw.
\<close>

definition scheduleChunk :: "real \<Rightarrow> AudioBuffer \<Rightarrow> LiveSession \<Rightarrow> LiveSession" where
  "scheduleChunk now buffer s =
     (let source = length (started s);
          startTime = max (nextStartTimeRef s) now
      in s\<lparr>nextStartTimeRef := startTime + duration buffer,
            started := started s @ [\<lparr>startAt = startTime, playDuration = duration buffer\<rparr>],
            sourcesRef := setAdd source (sourcesRef s)\<rparr>)"

text \<open>Lines 47 to 51: stop every source of the set, clear the set, reset the cursor.\<close>

definition interrupt :: "LiveSession \<Rightarrow> LiveSession" where
  "interrupt s = s\<lparr>stopped := stopped s \<union> set (sourcesRef s),
                    sourcesRef := [],
                    nextStartTimeRef := 0\<rparr>"

text \<open>
  The handler \<open>onmessage\<close>. An exception of \<open>decodeAudioData\<close> leaves the handler
  before anything is changed, and before the \<open>interrupted\<close> flag is looked at.
  \<open>audioContextRef.current\<close> is set before the connection is opened, so it is not null
  here; its sample rate is 24000 and the buffers have one channel.
\<close>

definition onmessage :: "AudioContext \<Rightarrow> real \<Rightarrow> ServerMessage \<Rightarrow> LiveSession \<Rightarrow> error + LiveSession" where
  "onmessage ctx now msg s =
     (case (case inlineData msg of
              None \<Rightarrow> Inr s
            | Some bytes \<Rightarrow>
                (case decodeAudioData bytes ctx 24000 1 of
                   Inl e \<Rightarrow> Inl e
                 | Inr buffer \<Rightarrow> Inr (scheduleChunk now buffer s))) of
        Inl e \<Rightarrow> Inl e
      | Inr s1 \<Rightarrow> Inr (if interrupted msg then interrupt s1 else s1))"

text \<open>
  A message whose handler throws leaves the state as it was; the following messages are
  handled as usual. Each message comes with the value of the output clock at the time
  it is handled.
\<close>

definition receive :: "AudioContext \<Rightarrow> LiveSession \<Rightarrow> real \<times> ServerMessage \<Rightarrow> LiveSession" where
  "receive ctx s ev = (case onmessage ctx (fst ev) (snd ev) s of Inl e \<Rightarrow> s | Inr s' \<Rightarrow> s')"

definition deliver :: "AudioContext \<Rightarrow> (real \<times> ServerMessage) list \<Rightarrow> LiveSession \<Rightarrow> LiveSession" where
  "deliver ctx evs s = foldl (receive ctx) s evs"

text \<open>The buffer that a message carries, when it carries one that decodes.\<close>

definition chunkOf :: "AudioContext \<Rightarrow> ServerMessage \<Rightarrow> AudioBuffer option" where
  "chunkOf ctx msg =
     (case inlineData msg of
        None \<Rightarrow> None
      | Some bytes \<Rightarrow> (case decodeAudioData bytes ctx 24000 1 of Inl e \<Rightarrow> None | Inr buffer \<Rightarrow> Some buffer))"

section \<open>Meditation player (src/components/MeditationPlayer.tsx)\<close>

subsection \<open>Session data (src/types.ts)\<close>

text \<open>
  Of a session the player reads the audio and the segments of the script. \<open>audioUrl\<close>
  stands for the bytes that \<open>decodeBase64(session.audioUrl)\<close> returns.
\<close>

record Segment =
  segmentText :: string
  startSecond :: real
  endSecond :: real

record MeditationScript =
  segments :: "Segment list"

record MeditationSession =
  audioUrl :: "byte list"
  script :: MeditationScript

subsection \<open>Caption lookup\<close>

text \<open>
  Lines 103 and 104 of \<open>updateProgress\<close>:
  \<open>segments.find(s => elapsed >= s.startSecond && elapsed <= s.endSecond)\<close> and
  \<open>segment ? segment.text : ""\<close>.
\<close>

definition activeCaption :: "real \<Rightarrow> Segment list \<Rightarrow> string" where
  "activeCaption elapsed segs =
     (case find (\<lambda>s. startSecond s \<le> elapsed \<and> elapsed \<le> endSecond s) segs of
        Some segment \<Rightarrow> segmentText segment
      | None \<Rightarrow> '''')"

subsection \<open>Component state\<close>

text \<open>
  The functions of the component are created anew by every render and close over the
  values that the state variables \<open>isPlaying\<close> and \<open>duration\<close> had in that render.
\<close>

record Render =
  seesPlaying :: bool
  seesDuration :: real

text \<open>
  A source node that was created and started by \<open>startAudio\<close>: the clock value at which
  \<open>source.start(0, fromTime)\<close> began the output, the offset into the buffer, the duration
  of the buffer, and the value of \<open>isPlaying\<close> that its \<open>onended\<close> handler closes over.
\<close>

record PlayerSource =
  startedAt :: real
  offset :: real
  sourceDuration :: real
  onendedSees :: bool

text \<open>
  The state variables (\<open>durationState\<close> is the variable \<open>duration\<close>), the refs, the
  source nodes created so far (a node is identified by its position in \<open>sources\<close>),
  the nodes on which \<open>stop()\<close> was called, and the animation-frame requests that are
  pending, each with its id and the render whose \<open>updateProgress\<close> it will call.
\<close>

record Player =
  isPlaying :: bool
  currentTime :: real
  durationState :: real
  currentSubtitle :: string
  sourceNodeRef :: "nat option"
  startTimeRef :: real
  pausedTimeRef :: real
  animationFrameRef :: nat
  sources :: "PlayerSource list"
  stoppedSources :: "nat set"
  pendingFrames :: "(nat \<times> Render) list"
  nextFrameId :: nat

definition mountedPlayer :: Player where
  "mountedPlayer =
     \<lparr>isPlaying = False, currentTime = 0, durationState = 0, currentSubtitle = '''',
      sourceNodeRef = None, startTimeRef = 0, pausedTimeRef = 0, animationFrameRef = 0,
      sources = [], stoppedSources = {}, pendingFrames = [], nextFrameId = 1\<rparr>"

definition currentRender :: "Player \<Rightarrow> Render" where
  "currentRender s = \<lparr>seesPlaying = isPlaying s, seesDuration = durationState s\<rparr>"

text \<open>Frame requests get fresh ids, counted from 1; cancelling an unknown id does nothing.\<close>

definition requestAnimationFrame :: "Render \<Rightarrow> Player \<Rightarrow> nat \<times> Player" where
  "requestAnimationFrame r s =
     (nextFrameId s,
      s\<lparr>pendingFrames := pendingFrames s @ [(nextFrameId s, r)], nextFrameId := Suc (nextFrameId s)\<rparr>)"

definition cancelAnimationFrame :: "nat \<Rightarrow> Player \<Rightarrow> Player" where
  "cancelAnimationFrame k s = s\<lparr>pendingFrames := filter (\<lambda>f. fst f \<noteq> k) (pendingFrames s)\<rparr>"

subsection \<open>stopAudio, startAudio, togglePlay, updateProgress\<close>

definition stopAudio :: "Player \<Rightarrow> Player" where
  "stopAudio s =
     (let s1 = (case sourceNodeRef s of
                  Some source \<Rightarrow> s\<lparr>stoppedSources := insert source (stoppedSources s),
                                     sourceNodeRef := None\<rparr>
                | None \<Rightarrow> s);
          s2 = cancelAnimationFrame (animationFrameRef s1) s1
      in s2\<lparr>isPlaying := False\<rparr>)"

text \<open>
  \<open>startAudio(fromTime)\<close>, in the render \<open>r\<close>. The audio context is created when the
  component is mounted, so the first test passes. An exception of \<open>decodeAudioData\<close>,
  or the RangeError of \<open>start\<close> for a negative offset, ends the function before any ref
  or state variable is written.
\<close>

definition startAudio ::
    "Render \<Rightarrow> AudioContext \<Rightarrow> MeditationSession \<Rightarrow> real \<Rightarrow> real \<Rightarrow> Player \<Rightarrow> error + Player" where
  "startAudio r ctx session fromTime now s =
     (case decodeAudioData (audioUrl session) ctx 24000 1 of
        Inl e \<Rightarrow> Inl e
      | Inr audioBuffer \<Rightarrow>
          if fromTime < 0 then Inl RangeError
          else
            let source = length (sources s);
                s1 = s\<lparr>sources := sources s @ [\<lparr>startedAt = now, offset = fromTime,
                                                   sourceDuration = duration audioBuffer,
                                                   onendedSees = seesPlaying r\<rparr>],
                       sourceNodeRef := Some source,
                       startTimeRef := now - fromTime,
                       isPlaying := True\<rparr>
            in Inr (snd (requestAnimationFrame r s1)))"

definition togglePlay ::
    "Render \<Rightarrow> AudioContext \<Rightarrow> MeditationSession \<Rightarrow> real \<Rightarrow> Player \<Rightarrow> error + Player" where
  "togglePlay r ctx session now s =
     (if seesPlaying r
      then Inr (stopAudio (s\<lparr>pausedTimeRef := now - startTimeRef s\<rparr>))
      else startAudio r ctx session (pausedTimeRef s) now s)"

definition updateProgress :: "Render \<Rightarrow> MeditationSession \<Rightarrow> real \<Rightarrow> Player \<Rightarrow> Player" where
  "updateProgress r session now s =
     (if \<not> seesPlaying r then s
      else
        let elapsed = now - startTimeRef s;
            s1 = s\<lparr>currentTime := elapsed,
                   currentSubtitle := activeCaption elapsed (segments (script session))\<rparr>
        in if seesDuration r \<le> elapsed
           then (stopAudio s1)\<lparr>currentTime := seesDuration r\<rparr>
           else (case requestAnimationFrame r s1 of (k, s2) \<Rightarrow> s2\<lparr>animationFrameRef := k\<rparr>))"

subsection \<open>Events\<close>

text \<open>
  A rejected promise of \<open>startAudio\<close> is not observed by anyone: the state stays as it
  was.
\<close>

definition unlessThrown :: "Player \<Rightarrow> error + Player \<Rightarrow> Player" where
  "unlessThrown s r = (case r of Inl e \<Rightarrow> s | Inr s' \<Rightarrow> s')"

datatype command = Play | Pause | StopCommand

text \<open>
  The effect on \<open>externalCommand\<close> (lines 35 to 39), in the render \<open>r\<close>. \<open>onClose\<close>
  removes the session, the player is unmounted and the clean-up of the audio effect
  calls \<open>stopAudio\<close>.
\<close>

definition externalCommandEffect ::
    "Render \<Rightarrow> AudioContext \<Rightarrow> MeditationSession \<Rightarrow> command option \<Rightarrow> real \<Rightarrow> Player \<Rightarrow> Player" where
  "externalCommandEffect r ctx session cmd now s =
     (let s1 = (if cmd = Some Play \<and> \<not> seesPlaying r
                then unlessThrown s (togglePlay r ctx session now s) else s);
          s2 = (if cmd = Some Pause \<and> seesPlaying r
                then unlessThrown s1 (togglePlay r ctx session now s1) else s1)
      in if cmd = Some StopCommand then stopAudio s2 else s2)"

text \<open>
  What can happen to a mounted player: the play button or the imperative handle calls
  \<open>togglePlay\<close>; the handle or a clean-up calls \<open>stopAudio\<close>; the external command
  changes; the browser runs a pending frame request; a source fires \<open>ended\<close>; the
  initial decoding finishes and sets \<open>duration\<close>. Handlers that the user interface
  calls are those of the current render, and each event is handled to its end before
  the next one (the continuation of \<open>startAudio\<close> after its \<open>await\<close> runs in the
  same task). A frame request that is run is no longer pending. Each event comes with
  the value of the output clock.
\<close>

datatype event =
    TogglePlay
  | StopAudio
  | ExternalCommand "command option"
  | AnimationFrame nat
  | Ended nat
  | AudioLoaded

definition handle :: "AudioContext \<Rightarrow> MeditationSession \<Rightarrow> Player \<Rightarrow> real \<times> event \<Rightarrow> Player" where
  "handle ctx session s ev =
     (case snd ev of
        TogglePlay \<Rightarrow> unlessThrown s (togglePlay (currentRender s) ctx session (fst ev) s)
      | StopAudio \<Rightarrow> stopAudio s
      | ExternalCommand cmd \<Rightarrow> externalCommandEffect (currentRender s) ctx session cmd (fst ev) s
      | AnimationFrame k \<Rightarrow>
          (case find (\<lambda>f. fst f = k) (pendingFrames s) of
             None \<Rightarrow> s
           | Some f \<Rightarrow> updateProgress (snd f) session (fst ev) (cancelAnimationFrame k s))
      | Ended source \<Rightarrow>
          (if source < length (sources s) \<and> onendedSees (sources s ! source)
           then s\<lparr>isPlaying := False\<rparr> else s)
      | AudioLoaded \<Rightarrow>
          (case decodeAudioData (audioUrl session) ctx 24000 1 of
             Inl e \<Rightarrow> s
           | Inr audioBuffer \<Rightarrow> s\<lparr>durationState := duration audioBuffer\<rparr>))"

definition runPlayer ::
    "AudioContext \<Rightarrow> MeditationSession \<Rightarrow> (real \<times> event) list \<Rightarrow> Player \<Rightarrow> Player" where
  "runPlayer ctx session evs s = foldl (handle ctx session) s evs"


definition playerInv :: "Player \<Rightarrow> bool" where
  "playerInv s \<longleftrightarrow>
     (\<forall>h<length (sources s). h \<notin> stoppedSources s \<longrightarrow> sourceNodeRef s = Some h \<and> isPlaying s)
     \<and> (\<forall>h<length (sources s). \<not> onendedSees (sources s ! h))
     \<and> (\<forall>f\<in>set (pendingFrames s). \<not> seesPlaying (snd f))"

subsection \<open>Example values\<close>

text \<open>
  A context with the limits that every implementation supports, and a session with two
  frames of silence and the three segments \<open>intro\<close>, \<open>breathe\<close> and \<open>close\<close>.
\<close>

definition exampleContext :: AudioContext where
  "exampleContext = \<lparr>maxChannels = 32, minSampleRate = 8000, maxSampleRate = 96000\<rparr>"

definition exampleSession :: MeditationSession where
  "exampleSession =
     \<lparr>audioUrl = [0, 0, 0, 0],
      script = \<lparr>segments = [\<lparr>segmentText = ''intro'', startSecond = 0, endSecond = 10\<rparr>,
                          \<lparr>segmentText = ''breathe'', startSecond = 10, endSecond = 170\<rparr>,
                          \<lparr>segmentText = ''close'', startSecond = 170, endSecond = 180\<rparr>]\<rparr>\<rparr>"

section \<open>Voice commands (src/App.tsx, src/types.ts)\<close>

datatype MeditationTheme = FOREST | OCEAN | SPACE | MOUNTAIN | ZEN

datatype VoiceName = KORE | PUCK | CHARON | FENRIR | ZEPHYR

text \<open>
  \<open>ThemeMap\<close> and \<open>VoiceMap\<close> are object literals. Reading \<open>obj[key]\<close> gives the own
  property of that name if there is one, else the property that the object inherits
  from \<open>Object.prototype\<close> (a function, or the prototype itself for \<open>__proto__\<close>), else
  \<open>undefined\<close>.
\<close>

datatype 'a jsvalue = Own 'a | Inherited string | Undefined

definition objectPrototypeKeys :: "string list" where
  "objectPrototypeKeys =
     [''constructor'', ''hasOwnProperty'', ''isPrototypeOf'', ''propertyIsEnumerable'',
      ''toLocaleString'', ''toString'', ''valueOf'', ''__proto__'',
      ''__defineGetter__'', ''__defineSetter__'', ''__lookupGetter__'', ''__lookupSetter__'']"

definition getProperty :: "(string \<times> 'a) list \<Rightarrow> string \<Rightarrow> 'a jsvalue" where
  "getProperty obj key =
     (case map_of obj key of
        Some v \<Rightarrow> Own v
      | None \<Rightarrow> if key \<in> set objectPrototypeKeys then Inherited key else Undefined)"

text \<open>
  The values of the two enumerations are non-empty strings, and functions and objects
  are truthy; only \<open>undefined\<close> is falsy.
\<close>

fun truthy :: "'a jsvalue \<Rightarrow> bool" where
  "truthy (Own v) = True"
| "truthy (Inherited k) = True"
| "truthy Undefined = False"

definition ThemeMap :: "(string \<times> MeditationTheme) list" where
  "ThemeMap = [(''Forest'', FOREST), (''Ocean'', OCEAN), (''Space'', SPACE),
               (''Mountain'', MOUNTAIN), (''Zen'', ZEN)]"

definition VoiceMap :: "(string \<times> VoiceName) list" where
  "VoiceMap = [(''Kore'', KORE), (''Puck'', PUCK), (''Charon'', CHARON),
               (''Fenrir'', FENRIR), (''Zephyr'', ZEPHYR)]"

text \<open>
  The intent that \<open>processVoiceCommand\<close> returns: a parsed JSON object whose fields,
  when present, are strings. An absent field reads as \<open>undefined\<close>, which as a property
  key is the string \<open>undefined\<close>.
\<close>

record Intent =
  intentTheme :: "string option"
  intentVoice :: "string option"
  intentAction :: "string option"

definition fieldTruthy :: "string option \<Rightarrow> bool" where
  "fieldTruthy f = (case f of None \<Rightarrow> False | Some v \<Rightarrow> v \<noteq> '''')"

definition lookupField :: "(string \<times> 'a) list \<Rightarrow> string option \<Rightarrow> 'a jsvalue" where
  "lookupField obj f = getProperty obj (case f of None \<Rightarrow> ''undefined'' | Some key \<Rightarrow> key)"

text \<open>
  The state variables that the handler writes, and what it sets off: a call of
  \<open>handleGenerate\<close> with its three arguments, or the timer that clears the playback
  command after 100 ms. \<open>setTheme\<close> and \<open>setVoice\<close> store whatever the lookup returned.
\<close>

record App =
  theme :: "MeditationTheme jsvalue"
  voice :: "VoiceName jsvalue"
  externalPlaybackCommand :: "string option"

datatype effect =
    HandleGenerate string "MeditationTheme jsvalue" "VoiceName jsvalue"
  | ClearCommandAfter nat

definition initialApp :: App where
  "initialApp = \<lparr>theme = Own ZEN, voice = Own ZEPHYR, externalPlaybackCommand = None\<rparr>"

text \<open>Lines 110 to 118 of the \<open>onstop\<close> handler of \<open>startVoiceControl\<close>.\<close>

definition applyIntent :: "Intent \<Rightarrow> App \<Rightarrow> App \<times> effect list" where
  "applyIntent intent s =
     (let s1 = (if fieldTruthy (intentTheme intent) \<and> truthy (lookupField ThemeMap (intentTheme intent))
                then s\<lparr>theme := lookupField ThemeMap (intentTheme intent)\<rparr> else s);
          s2 = (if fieldTruthy (intentVoice intent) \<and> truthy (lookupField VoiceMap (intentVoice intent))
                then s1\<lparr>voice := lookupField VoiceMap (intentVoice intent)\<rparr> else s1)
      in if intentAction intent = Some ''generate_image''
         then (s2, [HandleGenerate ''image'' (lookupField ThemeMap (intentTheme intent))
                                            (lookupField VoiceMap (intentVoice intent))])
         else if intentAction intent = Some ''generate_video''
         then (s2, [HandleGenerate ''video'' (lookupField ThemeMap (intentTheme intent))
                                            (lookupField VoiceMap (intentVoice intent))])
         else if intentAction intent \<in> {Some ''play'', Some ''pause'', Some ''stop''}
         then (s2\<lparr>externalPlaybackCommand := intentAction intent\<rparr>, [ClearCommandAfter 100])
         else (s2, []))"

section \<open>Properties of the codec\<close>

lemma length_int16s: "length (int16s d) = length d div 2"
  by (induction d rule: int16s.induct) simp_all

lemma int16s_nth:
  "k < length d div 2 \<Longrightarrow>
   int16s d ! k = sint (word_cat (d ! (2 * k + 1)) (d ! (2 * k)) :: 16 word)"
proof (induction d arbitrary: k rule: int16s.induct)
  case (1 lo hi rest)
  then show ?case by (cases k) simp_all
qed simp_all

lemma sint16_bounds: "- 32768 \<le> sint (w :: 16 word) \<and> sint w \<le> 32767"
  using sint_ge [of w] sint_lt [of w] by simp

lemma length_storeF32: "length (storeF32 a i v) = length a"
  by (simp add: storeF32_def)

lemma nth_storeF32: "j < length a \<Longrightarrow> storeF32 a i v ! j = (if j = i then v else a ! j)"
  by (simp add: storeF32_def)

lemma length_store_loop:
  "length (fold (\<lambda>i cd. storeF32 cd i (f i)) [0 ..< n] cd) = length cd"
  by (induction n) (simp_all add: length_storeF32)

lemma nth_store_loop:
  "i < length cd \<Longrightarrow>
   fold (\<lambda>i cd. storeF32 cd i (f i)) [0 ..< n] cd ! i = (if i < n then f i else cd ! i)"
  by (induction n) (auto simp: nth_storeF32 length_store_loop less_Suc_eq)

lemma length_channel_loop:
  "length (fold (\<lambda>ch cs. cs[ch := fillChannel d nc ch fc (cs ! ch)]) [0 ..< n] cs) = length cs"
  by (induction n) simp_all

lemma nth_channel_loop:
  "c < length cs \<Longrightarrow>
   fold (\<lambda>ch cs. cs[ch := fillChannel d nc ch fc (cs ! ch)]) [0 ..< n] cs ! c =
     (if c < n then fillChannel d nc c fc (cs ! c) else cs ! c)"
  by (induction n) (auto simp: length_channel_loop less_Suc_eq nth_list_update)

lemma floor_frameCount: "nat \<lfloor>real n / real c\<rfloor> = n div c"
  by (simp add: floor_divide_of_nat_eq)

lemma frames_le_ceiling: "n div c \<le> nat \<lceil>real n / real c\<rceil>"
proof -
  have "\<lfloor>real n / real c\<rfloor> \<le> \<lceil>real n / real c\<rceil>"
    by (rule floor_le_ceiling)
  then have "nat \<lfloor>real n / real c\<rfloor> \<le> nat \<lceil>real n / real c\<rceil>"
    by (rule nat_mono)
  then show ?thesis by (simp only: floor_frameCount)
qed

lemma sample_index_in_range:
  assumes "i < n div c" "ch < c"
  shows "i * c + ch < (n::nat)"
proof -
  have "i * c + ch < Suc i * c" using assms(2) by simp
  also have "\<dots> \<le> (n div c) * c" using assms(1) by (simp add: Suc_leI mult_le_mono1 del: mult_Suc)
  also have "\<dots> \<le> n" by simp
  finally show ?thesis .
qed

lemma decodeAudioData_success:
  assumes ev: "even (length data)"
    and nc: "0 < nc" "nc \<le> maxChannels ctx" "nc \<le> length data div 2"
    and rt: "minSampleRate ctx \<le> rate" "rate \<le> maxSampleRate ctx"
  shows "decodeAudioData data ctx rate nc =
           Inr \<lparr>sampleRate = rate,
                channels = map (\<lambda>ch. map (\<lambda>i. Num (real_of_int (int16s data ! (i * nc + ch)) / 32768))
                                      [0 ..< (length data div 2) div nc]) [0 ..< nc]\<rparr>"
proof -
  let ?N = "length data div 2"
  let ?fc = "real ?N / real nc"
  let ?F = "?N div nc"
  have F: "0 < ?F" using nc by (simp add: div_greater_zero_iff)
  have cb: "createBuffer ctx nc ?fc rate = Inr \<lparr>sampleRate = rate, channels = replicate nc (replicate ?F (Num 0))\<rparr>"
    using nc rt F by (simp add: createBuffer_def floor_frameCount)
  have fill: "fillChannels (int16s data) nc ?fc (replicate nc (replicate ?F (Num 0))) =
          map (\<lambda>ch. map (\<lambda>i. Num (real_of_int (int16s data ! (i * nc + ch)) / 32768)) [0 ..< ?F]) [0 ..< nc]"
    (is "?L = ?R")
  proof (rule nth_equalityI)
    show "length ?L = length ?R" by (simp add: fillChannels_def length_channel_loop)
  next
    fix ch assume "ch < length ?L"
    then have ch: "ch < nc" by (simp add: fillChannels_def length_channel_loop)
    have "?L ! ch = fillChannel (int16s data) nc ch ?fc (replicate ?F (Num 0))"
      using ch by (simp add: fillChannels_def nth_channel_loop)
    also have "\<dots> = map (\<lambda>i. Num (real_of_int (int16s data ! (i * nc + ch)) / 32768)) [0 ..< ?F]"
      (is "?l = ?r")
    proof (rule nth_equalityI)
      show "length ?l = length ?r" by (simp add: fillChannel_def length_store_loop)
    next
      fix i assume "i < length ?l"
      then have i: "i < ?F" by (simp add: fillChannel_def length_store_loop)
      have ic: "i < nat \<lceil>?fc\<rceil>" using i frames_le_ceiling [of ?N nc] by linarith
      have idx: "i * nc + ch < length (int16s data)"
        using sample_index_in_range [OF i ch] by (simp add: length_int16s)
      show "?l ! i = ?r ! i"
        using i ic idx by (simp add: fillChannel_def nth_store_loop readInt16_def)
    qed
    finally show "?L ! ch = ?R ! ch" using ch by simp
  qed
  show ?thesis
    using ev cb fill by (simp add: decodeAudioData_def newInt16Array_def length_int16s)
qed

text \<open>
  Claim C6. A valid payload (a non-empty byte sequence of even length, holding \<open>N\<close>
  16-bit samples, with a supported channel count \<open>C\<close> that divides \<open>N\<close> and a
  supported sample rate) decodes to a buffer of \<open>C\<close> channels with \<open>N / C\<close> frames
  each; the sample of frame \<open>i\<close> in channel \<open>c\<close> is the 16-bit signed integer at
  position \<open>i * C + c\<close> divided by 32768, and lies between -1 and 1.
\<close>

theorem decodeAudioData_frames_and_samples:
  assumes "data \<noteq> []" and "even (length data)" and "length data div 2 = N"
    and "0 < C" and "C \<le> maxChannels ctx" and "C dvd N"
    and "minSampleRate ctx \<le> rate" and "rate \<le> maxSampleRate ctx"
  shows "\<exists>buf. decodeAudioData data ctx rate C = Inr buf
           \<and> numberOfChannels buf = C \<and> frames buf = N div C
           \<and> (\<forall>c<C. length (channels buf ! c) = N div C
                \<and> (\<forall>i<N div C.
                      channels buf ! c ! i = Num (real_of_int (int16s data ! (i * C + c)) / 32768)
                      \<and> inUnitRange (channels buf ! c ! i)))"
proof -
  have N: "0 < N" using assms(1-3) by (cases data) auto
  then have le: "C \<le> length data div 2" using assms(3,6) by (auto dest: dvd_imp_le)
  let ?buf = "\<lparr>sampleRate = rate,
               channels = map (\<lambda>ch. map (\<lambda>i. Num (real_of_int (int16s data ! (i * C + ch)) / 32768))
                                     [0 ..< N div C]) [0 ..< C]\<rparr>"
  have dec: "decodeAudioData data ctx rate C = Inr ?buf"
    using decodeAudioData_success [OF assms(2,4,5) le assms(7,8)] assms(3) by simp
  have bound: "inUnitRange (Num (real_of_int (int16s data ! k) / 32768))" if "k < N" for k
  proof -
    have "int16s data ! k = sint (word_cat (data ! (2 * k + 1)) (data ! (2 * k)) :: 16 word)"
      using that assms(3) by (simp add: int16s_nth)
    then have "- 32768 \<le> int16s data ! k \<and> int16s data ! k \<le> 32767"
      using sint16_bounds by simp
    then show ?thesis by simp
  qed
  have fr: "frames ?buf = N div C"
    using assms(4) by (simp add: frames_def upt_conv_Cons)
  have smp: "\<forall>c<C. length (channels ?buf ! c) = N div C
                \<and> (\<forall>i<N div C.
                      channels ?buf ! c ! i = Num (real_of_int (int16s data ! (i * C + c)) / 32768)
                      \<and> inUnitRange (channels ?buf ! c ! i))"
  proof (intro allI impI conjI)
    fix c assume c: "c < C"
    then show "length (channels ?buf ! c) = N div C" by simp
    fix i assume i: "i < N div C"
    show eq: "channels ?buf ! c ! i = Num (real_of_int (int16s data ! (i * C + c)) / 32768)"
      using c i by simp
    have "i * C + c < N" using sample_index_in_range [OF i c] .
    from bound [OF this] show "inUnitRange (channels ?buf ! c ! i)"
      by (simp only: eq)
  qed
  show ?thesis
    using dec fr smp by (intro exI [of _ ?buf] conjI) (simp_all add: numberOfChannels_def)
qed

theorem decodeAudioData_frames_and_samples_witness:
  "\<exists>buf. decodeAudioData [0, 128, 255, 127, 1, 0, 254, 255]
             \<lparr>maxChannels = 32, minSampleRate = 8000, maxSampleRate = 96000\<rparr> 24000 2 = Inr buf
         \<and> numberOfChannels buf = 2 \<and> frames buf = 2
         \<and> channels buf ! 0 ! 0 = Num (- 1) \<and> channels buf ! 1 ! 0 = Num (32767 / 32768)
         \<and> channels buf ! 0 ! 1 = Num (1 / 32768) \<and> channels buf ! 1 ! 1 = Num (- 2 / 32768)"
proof -
  let ?data = "[0, 128, 255, 127, 1, 0, 254, 255] :: byte list"
  let ?ctx = "\<lparr>maxChannels = 32, minSampleRate = 8000, maxSampleRate = 96000\<rparr>"
  have d16: "int16s ?data = [- 32768, 32767, 1, - 2]"
    by (simp add: word_cat_eq)
  from decodeAudioData_frames_and_samples [of ?data 4 2 ?ctx 24000]
  obtain buf where dec: "decodeAudioData ?data ?ctx 24000 2 = Inr buf"
    and nf: "numberOfChannels buf = 2" "frames buf = 2"
    and smp: "\<forall>c<2. length (channels buf ! c) = 2
                \<and> (\<forall>i<2. channels buf ! c ! i = Num (real_of_int (int16s ?data ! (i * 2 + c)) / 32768)
                      \<and> inUnitRange (channels buf ! c ! i))"
    by auto
  have c0: "(0::nat) < 2" and c1: "(1::nat) < 2" by simp_all
  from smp c0 have "channels buf ! 0 ! 0 = Num (real_of_int (int16s ?data ! (0 * 2 + 0)) / 32768)"
    by blast
  then have s00: "channels buf ! 0 ! 0 = Num (- 1)" by (simp only: d16) simp
  from smp c0 c1 have "channels buf ! 1 ! 0 = Num (real_of_int (int16s ?data ! (0 * 2 + 1)) / 32768)"
    by blast
  then have s10: "channels buf ! 1 ! 0 = Num (32767 / 32768)" by (simp only: d16) simp
  from smp c0 c1 have "channels buf ! 0 ! 1 = Num (real_of_int (int16s ?data ! (1 * 2 + 0)) / 32768)"
    by blast
  then have s01: "channels buf ! 0 ! 1 = Num (1 / 32768)" by (simp only: d16) simp
  from smp c1 have "channels buf ! 1 ! 1 = Num (real_of_int (int16s ?data ! (1 * 2 + 1)) / 32768)"
    by blast
  then have s11: "channels buf ! 1 ! 1 = Num (- 2 / 32768)" by (simp only: d16) simp
  from dec nf s00 s10 s01 s11 show ?thesis by blast
qed

text \<open>
  Claim C7, as stated, fails: the function checks no length. With two channels and six
  bytes (three samples, not a multiple of \<open>numChannels * 2 = 4\<close>) decoding succeeds
  and the trailing partial frame is dropped.
\<close>

theorem decodeAudioData_partial_frame_counterexample:
  "\<not> (2 * 2) dvd length [0, 128, 255, 127, 1, 0 :: byte]
   \<and> decodeAudioData [0, 128, 255, 127, 1, 0]
        \<lparr>maxChannels = 32, minSampleRate = 8000, maxSampleRate = 96000\<rparr> 24000 2
       = Inr \<lparr>sampleRate = 24000, channels = [[Num (- 1)], [Num (32767 / 32768)]]\<rparr>"
proof -
  have a: "newInt16Array [0, 128, 255, 127, 1, 0] = Inr [- 32768, 32767, 1]"
    by (simp add: newInt16Array_def word_cat_eq)
  have b: "createBuffer \<lparr>maxChannels = 32, minSampleRate = 8000, maxSampleRate = 96000\<rparr> 2 (3 / 2) 24000
             = Inr \<lparr>sampleRate = 24000, channels = [[Num 0], [Num 0]]\<rparr>"
    by (simp add: createBuffer_def numeral_2_eq_2)
  have c: "fillChannels [- 32768, 32767, 1] 2 (3 / 2) [[Num 0], [Num 0]]
             = [[Num (- 1)], [Num (32767 / 32768)]]"
    by (simp add: fillChannels_def fillChannel_def storeF32_def readInt16_def upt_conv_Cons
        numeral_2_eq_2)
  have "decodeAudioData [0, 128, 255, 127, 1, 0]
        \<lparr>maxChannels = 32, minSampleRate = 8000, maxSampleRate = 96000\<rparr> 24000 2
       = Inr \<lparr>sampleRate = 24000, channels = [[Num (- 1)], [Num (32767 / 32768)]]\<rparr>"
    by (simp add: decodeAudioData_def a b c)
  moreover have "length [0, 128, 255, 127, 1, 0 :: byte] = 6" by simp
  moreover have "\<not> (2 * 2) dvd (6 :: nat)" by simp
  ultimately show ?thesis by (simp only: not_False_eq_True simp_thms)
qed

text \<open>
  Claim C7, amended. Decoding fails exactly in these cases: with the RangeError of the
  \<open>Int16Array\<close> constructor when the byte length is odd, and with the
  NotSupportedError of \<open>createBuffer\<close> when the byte length is even but fewer than
  \<open>numChannels\<close> samples are present (an empty payload among them) or the channel count
  or sample rate is not supported. In every other case it succeeds with
  \<open>\<lfloor>N / numChannels\<rfloor>\<close> frames per channel.
\<close>

theorem decodeAudioData_cases:
  "decodeAudioData data ctx rate nc =
     (if odd (length data) then Inl RangeError
      else if nc = 0 \<or> maxChannels ctx < nc \<or> length data div 2 < nc
              \<or> rate < minSampleRate ctx \<or> maxSampleRate ctx < rate
      then Inl NotSupportedError
      else Inr \<lparr>sampleRate = rate,
                channels = map (\<lambda>ch. map (\<lambda>i. Num (real_of_int (int16s data ! (i * nc + ch)) / 32768))
                                      [0 ..< (length data div 2) div nc]) [0 ..< nc]\<rparr>)"
proof (cases "odd (length data)")
  case True
  then show ?thesis by (simp add: decodeAudioData_def newInt16Array_def)
next
  case even: False
  show ?thesis
  proof (cases "nc = 0 \<or> maxChannels ctx < nc \<or> length data div 2 < nc
              \<or> rate < minSampleRate ctx \<or> maxSampleRate ctx < rate")
    case True
    then have "createBuffer ctx nc (real (length data div 2) / real nc) rate = Inl NotSupportedError"
      by (auto simp: createBuffer_def floor_frameCount)
    then show ?thesis
      using even True by (simp add: decodeAudioData_def newInt16Array_def length_int16s)
  next
    case False
    then show ?thesis
      using even decodeAudioData_success [of data nc ctx rate] by simp
  qed
qed

theorem decodeAudioData_cases_witness:
  "decodeAudioData [0, 128, 255] \<lparr>maxChannels = 32, minSampleRate = 8000, maxSampleRate = 96000\<rparr> 24000 1
     = Inl RangeError
   \<and> decodeAudioData [] \<lparr>maxChannels = 32, minSampleRate = 8000, maxSampleRate = 96000\<rparr> 24000 1
     = Inl NotSupportedError
   \<and> decodeAudioData [0, 128, 255, 127] \<lparr>maxChannels = 32, minSampleRate = 8000, maxSampleRate = 96000\<rparr> 24000 1
     = Inr \<lparr>sampleRate = 24000, channels = [[Num (- 1), Num (32767 / 32768)]]\<rparr>"
proof -
  let ?ctx = "\<lparr>maxChannels = 32, minSampleRate = 8000, maxSampleRate = 96000\<rparr>"
  have "decodeAudioData [0, 128, 255] ?ctx 24000 1 = Inl RangeError"
    using decodeAudioData_cases [of "[0, 128, 255]" ?ctx 24000 1] by simp
  moreover have "decodeAudioData [] ?ctx 24000 1 = Inl NotSupportedError"
    using decodeAudioData_cases [of "[]" ?ctx 24000 1] by simp
  moreover have "decodeAudioData [0, 128, 255, 127] ?ctx 24000 1
      = Inr \<lparr>sampleRate = 24000, channels = [[Num (- 1), Num (32767 / 32768)]]\<rparr>"
  proof -
    have d: "int16s [0, 128, 255, 127] = [- 32768, 32767]"
      by (simp add: word_cat_eq)
    have u: "[0 ..< (length [0, 128, 255, 127 :: byte] div 2) div 1] = [0, 1]"
      by (simp add: upt_conv_Cons)
    show ?thesis
      using decodeAudioData_cases [of "[0, 128, 255, 127]" ?ctx 24000 1]
      unfolding d u by simp
  qed
  ultimately show ?thesis by simp
qed

section \<open>Properties of the microphone capture\<close>

lemma trunc_in_int16_range:
  assumes "- 1 \<le> v" and "v < 1"
  shows "- 32768 \<le> trunc (v * 32768) \<and> trunc (v * 32768) < 32768"
proof (cases "0 \<le> v")
  case True
  then have "0 \<le> \<lfloor>v * 32768\<rfloor>" by simp
  moreover have "\<lfloor>v * 32768\<rfloor> < 32768" using assms(2) by (simp add: floor_less_iff)
  ultimately show ?thesis using True by (simp add: trunc_def)
next
  case False
  then have "\<lceil>v * 32768\<rceil> \<le> 0" by (simp add: ceiling_le_iff)
  moreover have "- 32768 \<le> \<lceil>v * 32768\<rceil>" using assms(1) by (simp add: le_ceiling_iff)
  ultimately show ?thesis using False by (simp add: trunc_def mult_nonneg_nonneg zero_le_mult_iff)
qed

text \<open>
  Claim C10. Each captured sample \<open>v\<close> is stored as \<open>v * 32768\<close> truncated towards
  zero and wrapped modulo \<open>2 ^ 16\<close> into the signed 16-bit range. A sample with
  \<open>-1 \<le> v < 1\<close> is stored as its truncated value; the sample \<open>1.0\<close> is stored as
  \<open>-32768\<close>, not clamped to \<open>32767\<close>.
\<close>

theorem encodeSample_truncates_and_wraps:
  "(sint (encodeSample v) mod 65536 = trunc (v * 32768) mod 65536
      \<and> - 32768 \<le> sint (encodeSample v) \<and> sint (encodeSample v) \<le> 32767)
   \<and> (- 1 \<le> v \<and> v < 1 \<longrightarrow> sint (encodeSample v) = trunc (v * 32768))
   \<and> sint (encodeSample 1) = - 32768
   \<and> map sint (onaudioprocess vs) = map (\<lambda>v. sint (encodeSample v)) vs"
proof (intro conjI impI)
  let ?w = "encodeSample v"
  have "uint ?w = take_bit 16 (trunc (v * 32768))"
    by (simp add: encodeSample_def toInt16_def uint_word_of_int_eq)
  moreover have "uint ?w = take_bit 16 (sint ?w)"
    by (simp add: uint_sint)
  ultimately show "sint ?w mod 65536 = trunc (v * 32768) mod 65536"
    by (simp add: take_bit_eq_mod)
  show "- 32768 \<le> sint ?w" using sint_ge [of ?w] by simp
  show "sint ?w \<le> 32767" using sint_lt [of ?w] by simp
next
  assume "- 1 \<le> v \<and> v < 1"
  then have "- 32768 \<le> trunc (v * 32768) \<and> trunc (v * 32768) < 32768"
    using trunc_in_int16_range by simp
  then have "signed_take_bit 15 (trunc (v * 32768)) = trunc (v * 32768)"
    by (simp add: signed_take_bit_int_eq_self)
  then show "sint (encodeSample v) = trunc (v * 32768)"
    by (simp add: encodeSample_def toInt16_def sint_sbintrunc')
next
  show "sint (encodeSample 1) = - 32768"
    by (simp add: encodeSample_def toInt16_def trunc_def)
next
  show "map sint (onaudioprocess vs) = map (\<lambda>v. sint (encodeSample v)) vs"
    by (simp add: onaudioprocess_def)
qed

theorem encodeSample_truncates_and_wraps_witness:
  "sint (encodeSample (1 / 2)) = 16384 \<and> sint (encodeSample (- 1)) = - 32768
   \<and> sint (encodeSample (- 1 / 100000)) = 0 \<and> sint (encodeSample (99999 / 100000)) = 32767"
proof -
  have t1: "trunc (1 / 2 * 32768) = 16384" by (simp add: trunc_def)
  have t2: "trunc (- 1 * 32768) = - 32768" by (simp add: trunc_def)
  have t3: "trunc (- 1 / 100000 * 32768) = 0" by (simp add: trunc_def ceiling_eq_iff)
  have t4: "trunc (99999 / 100000 * 32768) = 32767" by (simp add: trunc_def floor_eq_iff)
  show ?thesis
    using encodeSample_truncates_and_wraps [of "1 / 2" "[]"]
      encodeSample_truncates_and_wraps [of "- 1" "[]"]
      encodeSample_truncates_and_wraps [of "- 1 / 100000" "[]"]
      encodeSample_truncates_and_wraps [of "99999 / 100000" "[]"]
    by (simp only: t1 t2 t3 t4) simp
qed

section \<open>Properties of the streaming session\<close>

lemma onmessage_chunk:
  assumes "chunkOf ctx msg = Some buffer"
  shows "onmessage ctx now msg s =
           Inr (if interrupted msg then interrupt (scheduleChunk now buffer s)
                else scheduleChunk now buffer s)"
  using assms by (auto simp: chunkOf_def onmessage_def split: option.splits sum.splits)

lemma onmessage_no_chunk:
  assumes "inlineData msg = None"
  shows "onmessage ctx now msg s = Inr (if interrupted msg then interrupt s else s)"
  using assms by (simp add: onmessage_def)

lemma receive_chunk:
  assumes "chunkOf ctx (snd ev) = Some buffer" and "\<not> interrupted (snd ev)"
  shows "receive ctx s ev = scheduleChunk (fst ev) buffer s"
  using assms by (simp add: receive_def onmessage_chunk)

lemma deliver_snoc: "deliver ctx (evs @ [ev]) s = receive ctx (deliver ctx evs s) ev"
  by (simp add: deliver_def)

lemma started_scheduleChunk:
  "started (scheduleChunk now buffer s) =
     started s @ [\<lparr>startAt = max (nextStartTimeRef s) now, playDuration = duration buffer\<rparr>]"
  by (simp add: scheduleChunk_def Let_def)

lemma cursor_scheduleChunk:
  "nextStartTimeRef (scheduleChunk now buffer s) = max (nextStartTimeRef s) now + duration buffer"
  by (simp add: scheduleChunk_def Let_def)

lemma started_deliver_length:
  assumes "\<forall>ev\<in>set evs. chunkOf ctx (snd ev) \<noteq> None \<and> \<not> interrupted (snd ev)"
  shows "length (started (deliver ctx evs s)) = length (started s) + length evs"
  using assms
proof (induction evs rule: rev_induct)
  case Nil
  show ?case by (simp add: deliver_def)
next
  case (snoc ev evs)
  then obtain buffer where "chunkOf ctx (snd ev) = Some buffer" "\<not> interrupted (snd ev)"
    by auto
  then have "deliver ctx (evs @ [ev]) s = scheduleChunk (fst ev) buffer (deliver ctx evs s)"
    by (simp add: deliver_snoc receive_chunk)
  then show ?case using snoc by (simp add: started_scheduleChunk)
qed

lemma started_deliver_prefix:
  assumes "\<forall>ev\<in>set evs. chunkOf ctx (snd ev) \<noteq> None \<and> \<not> interrupted (snd ev)"
    and "i \<le> length evs"
  shows "started (deliver ctx (take i evs) s) = take (length (started s) + i) (started (deliver ctx evs s))"
  using assms
proof (induction evs rule: rev_induct)
  case Nil
  then show ?case by (simp add: deliver_def)
next
  case (snoc ev evs)
  then have all: "\<forall>ev\<in>set evs. chunkOf ctx (snd ev) \<noteq> None \<and> \<not> interrupted (snd ev)"
    by simp
  from snoc obtain buffer where b: "chunkOf ctx (snd ev) = Some buffer" "\<not> interrupted (snd ev)"
    by auto
  have step: "deliver ctx (evs @ [ev]) s = scheduleChunk (fst ev) buffer (deliver ctx evs s)"
    using b by (simp add: deliver_snoc receive_chunk)
  have len: "length (started (deliver ctx evs s)) = length (started s) + length evs"
    using all by (rule started_deliver_length)
  show ?case
  proof (cases "i \<le> length evs")
    case True
    then have "started (deliver ctx (take i evs) s)
        = take (length (started s) + i) (started (deliver ctx evs s))"
      using snoc.IH all by simp
    then show ?thesis using True len by (simp add: step started_scheduleChunk)
  next
    case False
    then have "i = Suc (length evs)" using snoc.prems(2) by simp
    then show ?thesis using len by (simp add: step started_scheduleChunk)
  qed
qed

lemma nth_started_deliver:
  assumes all: "\<forall>ev\<in>set evs. chunkOf ctx (snd ev) \<noteq> None \<and> \<not> interrupted (snd ev)"
    and i: "i < length evs"
    and buf: "chunkOf ctx (snd (evs ! i)) = Some buffer"
  shows "started (deliver ctx evs s) ! (length (started s) + i)
           = \<lparr>startAt = max (nextStartTimeRef (deliver ctx (take i evs) s)) (fst (evs ! i)),
               playDuration = duration buffer\<rparr>"
    and "nextStartTimeRef (deliver ctx (take (Suc i) evs) s)
           = max (nextStartTimeRef (deliver ctx (take i evs) s)) (fst (evs ! i)) + duration buffer"
proof -
  let ?before = "deliver ctx (take i evs) s"
  have ni: "\<not> interrupted (snd (evs ! i))" using all i by simp
  have step: "deliver ctx (take (Suc i) evs) s = scheduleChunk (fst (evs ! i)) buffer ?before"
    using i buf ni by (simp add: take_Suc_conv_app_nth deliver_snoc receive_chunk)
  have pre: "started ?before = take (length (started s) + i) (started (deliver ctx evs s))"
    using all i by (simp add: started_deliver_prefix)
  have len: "length (started (deliver ctx evs s)) = length (started s) + length evs"
    using all by (rule started_deliver_length)
  have lb: "length (started ?before) = length (started s) + i"
    using pre len i by simp
  have "started (deliver ctx (take (Suc i) evs) s)
          = take (length (started s) + Suc i) (started (deliver ctx evs s))"
    using all i by (simp add: started_deliver_prefix)
  then have "started (deliver ctx evs s) ! (length (started s) + i)
          = started (deliver ctx (take (Suc i) evs) s) ! (length (started s) + i)"
    by simp
  also have "\<dots> = \<lparr>startAt = max (nextStartTimeRef ?before) (fst (evs ! i)),
                      playDuration = duration buffer\<rparr>"
    using lb by (simp add: step started_scheduleChunk nth_append)
  finally show "started (deliver ctx evs s) ! (length (started s) + i)
           = \<lparr>startAt = max (nextStartTimeRef ?before) (fst (evs ! i)),
               playDuration = duration buffer\<rparr>" .
  show "nextStartTimeRef (deliver ctx (take (Suc i) evs) s)
           = max (nextStartTimeRef ?before) (fst (evs ! i)) + duration buffer"
    by (simp add: step cursor_scheduleChunk)
qed

lemma chunkOf_two_frames:
  "chunkOf \<lparr>maxChannels = 32, minSampleRate = 8000, maxSampleRate = 96000\<rparr>
      \<lparr>inlineData = Some [0, 0, 0, 0], interrupted = b\<rparr>
     = Some \<lparr>sampleRate = 24000, channels = [[Num 0, Num 0]]\<rparr>"
  by (simp add: chunkOf_def decodeAudioData_success upt_conv_Cons)

lemma chunkOf_one_frame:
  "chunkOf \<lparr>maxChannels = 32, minSampleRate = 8000, maxSampleRate = 96000\<rparr>
      \<lparr>inlineData = Some [0, 0], interrupted = b\<rparr>
     = Some \<lparr>sampleRate = 24000, channels = [[Num 0]]\<rparr>"
  by (simp add: chunkOf_def decodeAudioData_success upt_conv_Cons)

text \<open>
  Claim C1. In a run of messages that each carry a chunk (and no interruption), chunk
  \<open>i\<close> is started at the maximum of the cursor and the output clock, the cursor then
  is that start time plus the duration of the chunk, and whenever the next chunk is
  handled strictly before its own start time (or not after the end of chunk \<open>i\<close>), it
  starts exactly where chunk \<open>i\<close> ends.
\<close>

theorem chunks_play_back_to_back:
  assumes "\<forall>ev\<in>set evs. chunkOf ctx (snd ev) \<noteq> None \<and> \<not> interrupted (snd ev)"
    and "i < length evs"
  shows "startAt (started (deliver ctx evs s) ! (length (started s) + i))
           = max (nextStartTimeRef (deliver ctx (take i evs) s)) (fst (evs ! i))
       \<and> map_option duration (chunkOf ctx (snd (evs ! i)))
           = Some (playDuration (started (deliver ctx evs s) ! (length (started s) + i)))
       \<and> nextStartTimeRef (deliver ctx (take (Suc i) evs) s)
           = startAt (started (deliver ctx evs s) ! (length (started s) + i))
             + playDuration (started (deliver ctx evs s) ! (length (started s) + i))
       \<and> (Suc i < length evs
            \<and> (fst (evs ! Suc i) < startAt (started (deliver ctx evs s) ! (length (started s) + Suc i))
                 \<or> fst (evs ! Suc i)
                     \<le> startAt (started (deliver ctx evs s) ! (length (started s) + i))
                        + playDuration (started (deliver ctx evs s) ! (length (started s) + i)))
          \<longrightarrow> startAt (started (deliver ctx evs s) ! (length (started s) + Suc i))
                = startAt (started (deliver ctx evs s) ! (length (started s) + i))
                  + playDuration (started (deliver ctx evs s) ! (length (started s) + i)))"
proof -
  let ?S = "started (deliver ctx evs s)"
  let ?n = "length (started s)"
  from assms obtain buffer where buf: "chunkOf ctx (snd (evs ! i)) = Some buffer"
    by fastforce
  note here = nth_started_deliver [OF assms(1,2) buf, of s]
  have a: "startAt (?S ! (?n + i)) = max (nextStartTimeRef (deliver ctx (take i evs) s)) (fst (evs ! i))"
    by (simp add: here(1))
  have b: "playDuration (?S ! (?n + i)) = duration buffer"
    by (simp add: here(1))
  have c: "nextStartTimeRef (deliver ctx (take (Suc i) evs) s)
             = startAt (?S ! (?n + i)) + playDuration (?S ! (?n + i))"
    by (simp add: here)
  have d: "startAt (?S ! (?n + Suc i)) = startAt (?S ! (?n + i)) + playDuration (?S ! (?n + i))"
    if nxt: "Suc i < length evs"
      and early: "fst (evs ! Suc i) < startAt (?S ! (?n + Suc i))
                  \<or> fst (evs ! Suc i) \<le> startAt (?S ! (?n + i)) + playDuration (?S ! (?n + i))"
  proof -
    from assms(1) nxt obtain buffer' where buf': "chunkOf ctx (snd (evs ! Suc i)) = Some buffer'"
      by fastforce
    have "startAt (?S ! (?n + Suc i))
            = max (nextStartTimeRef (deliver ctx (take (Suc i) evs) s)) (fst (evs ! Suc i))"
      using nth_started_deliver(1) [OF assms(1) nxt buf', of s] by simp
    with early c have "startAt (?S ! (?n + Suc i)) = nextStartTimeRef (deliver ctx (take (Suc i) evs) s)"
      by (auto simp: max_def split: if_splits)
    with c show ?thesis by simp
  qed
  from a b c d buf show ?thesis by simp
qed

theorem chunks_play_back_to_back_witness:
  "fst ([(1, \<lparr>inlineData = Some [0, 0, 0, 0], interrupted = False\<rparr>),
         (24001 / 24000, \<lparr>inlineData = Some [0, 0], interrupted = False\<rparr>)] ! 1)
     < startAt (started (deliver \<lparr>maxChannels = 32, minSampleRate = 8000, maxSampleRate = 96000\<rparr>
         [(1, \<lparr>inlineData = Some [0, 0, 0, 0], interrupted = False\<rparr>),
          (24001 / 24000, \<lparr>inlineData = Some [0, 0], interrupted = False\<rparr>)] newLiveSession) ! 1)
   \<and> startAt (started (deliver \<lparr>maxChannels = 32, minSampleRate = 8000, maxSampleRate = 96000\<rparr>
         [(1, \<lparr>inlineData = Some [0, 0, 0, 0], interrupted = False\<rparr>),
          (24001 / 24000, \<lparr>inlineData = Some [0, 0], interrupted = False\<rparr>)] newLiveSession) ! 1)
     = startAt (started (deliver \<lparr>maxChannels = 32, minSampleRate = 8000, maxSampleRate = 96000\<rparr>
         [(1, \<lparr>inlineData = Some [0, 0, 0, 0], interrupted = False\<rparr>),
          (24001 / 24000, \<lparr>inlineData = Some [0, 0], interrupted = False\<rparr>)] newLiveSession) ! 0)
       + playDuration (started (deliver \<lparr>maxChannels = 32, minSampleRate = 8000, maxSampleRate = 96000\<rparr>
         [(1, \<lparr>inlineData = Some [0, 0, 0, 0], interrupted = False\<rparr>),
          (24001 / 24000, \<lparr>inlineData = Some [0, 0], interrupted = False\<rparr>)] newLiveSession) ! 0)"
proof -
  let ?ctx = "\<lparr>maxChannels = 32, minSampleRate = 8000, maxSampleRate = 96000\<rparr>"
  let ?evs = "[(1, \<lparr>inlineData = Some [0, 0, 0, 0], interrupted = False\<rparr>),
        (24001 / 24000, \<lparr>inlineData = Some [0, 0], interrupted = False\<rparr>)] :: (real \<times> ServerMessage) list"
  let ?S = "started (deliver ?ctx ?evs newLiveSession)"
  have all: "\<forall>ev\<in>set ?evs. chunkOf ?ctx (snd ev) \<noteq> None \<and> \<not> interrupted (snd ev)"
    by (simp add: chunkOf_two_frames chunkOf_one_frame)
  have S: "?S = [\<lparr>startAt = 1, playDuration = 2 / 24000\<rparr>,
                 \<lparr>startAt = 1 + 2 / 24000, playDuration = 1 / 24000\<rparr>]"
    by (simp add: deliver_def receive_def onmessage_chunk chunkOf_two_frames chunkOf_one_frame
        scheduleChunk_def newLiveSession_def duration_def frames_def Let_def)
  have n0: "length (started newLiveSession) = 0"
    by (simp add: newLiveSession_def)
  have early: "Suc 0 < length ?evs
      \<and> fst (?evs ! Suc 0) < startAt (?S ! (length (started newLiveSession) + Suc 0))"
    unfolding S n0 by simp
  have "startAt (?S ! (length (started newLiveSession) + Suc 0))
          = startAt (?S ! (length (started newLiveSession) + 0))
            + playDuration (?S ! (length (started newLiveSession) + 0))"
    using chunks_play_back_to_back [OF all, of 0 newLiveSession] early by blast
  then have "startAt (?S ! 1) = startAt (?S ! 0) + playDuration (?S ! 0)"
    unfolding n0 by simp
  moreover have "fst (?evs ! 1) < startAt (?S ! 1)"
    using early unfolding n0 by simp
  ultimately show ?thesis by blast
qed

text \<open>
  Claim C2. When a message with the interruption flag is handled (its chunk, if it
  carries one, decodes), every source of the set, the one just added included, has
  been stopped, the set is empty and the cursor is 0; the chunk of any later message
  then starts at the maximum of 0 and the output clock, so not before the clock.
\<close>

theorem interruption_flushes_schedule:
  assumes "interrupted msg" and "inlineData msg = None \<or> chunkOf ctx msg \<noteq> None"
  shows "\<exists>s'. onmessage ctx now msg s = Inr s'
           \<and> sourcesRef s' = [] \<and> nextStartTimeRef s' = 0
           \<and> set (sourcesRef s) \<subseteq> stopped s'
           \<and> (\<forall>h. length (started s) \<le> h \<and> h < length (started s') \<longrightarrow> h \<in> stopped s')
           \<and> (\<forall>now' msg' buffer. chunkOf ctx msg' = Some buffer \<longrightarrow>
                 (\<exists>s''. onmessage ctx now' msg' s' = Inr s''
                    \<and> startAt (started s'' ! length (started s')) = max 0 now'
                    \<and> now' \<le> startAt (started s'' ! length (started s'))))"
proof -
  have next_chunk: "\<forall>now' msg' buffer. chunkOf ctx msg' = Some buffer \<longrightarrow>
                 (\<exists>s''. onmessage ctx now' msg' t = Inr s''
                    \<and> startAt (started s'' ! length (started t)) = max 0 now'
                    \<and> now' \<le> startAt (started s'' ! length (started t)))"
    if "nextStartTimeRef t = 0" for t
    using that by (simp add: onmessage_chunk interrupt_def started_scheduleChunk)
  have flushed: "sourcesRef (interrupt t) = [] \<and> nextStartTimeRef (interrupt t) = 0
      \<and> set (sourcesRef t) \<subseteq> stopped (interrupt t)" for t
    by (simp add: interrupt_def)
  show ?thesis
  proof (cases "inlineData msg")
    case None
    then have "onmessage ctx now msg s = Inr (interrupt s)"
      using assms(1) by (simp add: onmessage_no_chunk)
    moreover have "\<forall>h. length (started s) \<le> h \<and> h < length (started (interrupt s))
        \<longrightarrow> h \<in> stopped (interrupt s)"
      by (auto simp: interrupt_def)
    ultimately show ?thesis
      using next_chunk [of "interrupt s"] flushed [of s] by blast
  next
    case (Some bytes)
    with assms(2) obtain buffer where "chunkOf ctx msg = Some buffer" by auto
    then have "onmessage ctx now msg s = Inr (interrupt (scheduleChunk now buffer s))"
      using assms(1) by (simp add: onmessage_chunk)
    moreover have "set (sourcesRef s) \<subseteq> stopped (interrupt (scheduleChunk now buffer s))"
      by (auto simp: interrupt_def scheduleChunk_def setAdd_def Let_def)
    moreover have "\<forall>h. length (started s) \<le> h \<and> h < length (started (interrupt (scheduleChunk now buffer s)))
        \<longrightarrow> h \<in> stopped (interrupt (scheduleChunk now buffer s))"
    proof (intro allI impI)
      fix h
      assume "length (started s) \<le> h \<and> h < length (started (interrupt (scheduleChunk now buffer s)))"
      then have "h = length (started s)"
        by (simp add: interrupt_def started_scheduleChunk)
      then show "h \<in> stopped (interrupt (scheduleChunk now buffer s))"
        by (simp add: interrupt_def scheduleChunk_def setAdd_def Let_def)
    qed
    ultimately show ?thesis
      using next_chunk [of "interrupt (scheduleChunk now buffer s)"]
        flushed [of "scheduleChunk now buffer s"] by blast
  qed
qed

theorem interruption_flushes_schedule_witness:
  "\<exists>s'. onmessage \<lparr>maxChannels = 32, minSampleRate = 8000, maxSampleRate = 96000\<rparr> 2
           \<lparr>inlineData = None, interrupted = True\<rparr>
           \<lparr>nextStartTimeRef = 5, sourcesRef = [0, 1], started =
              [\<lparr>startAt = 1, playDuration = 2\<rparr>, \<lparr>startAt = 3, playDuration = 2\<rparr>], stopped = {}\<rparr>
         = Inr s'
       \<and> sourcesRef s' = [] \<and> nextStartTimeRef s' = 0 \<and> 0 \<in> stopped s' \<and> 1 \<in> stopped s'
       \<and> (\<exists>s''. onmessage \<lparr>maxChannels = 32, minSampleRate = 8000, maxSampleRate = 96000\<rparr> 4
                    \<lparr>inlineData = Some [0, 0], interrupted = False\<rparr> s' = Inr s''
               \<and> startAt (started s'' ! 2) = 4)"
proof -
  let ?ctx = "\<lparr>maxChannels = 32, minSampleRate = 8000, maxSampleRate = 96000\<rparr>"
  let ?s = "\<lparr>nextStartTimeRef = 5, sourcesRef = [0, 1], started =
              [\<lparr>startAt = 1, playDuration = 2\<rparr>, \<lparr>startAt = 3, playDuration = 2\<rparr>], stopped = {}\<rparr>"
  from interruption_flushes_schedule [of "\<lparr>inlineData = None, interrupted = True\<rparr>" ?ctx 2 ?s]
  obtain s' where s': "onmessage ?ctx 2 \<lparr>inlineData = None, interrupted = True\<rparr> ?s = Inr s'"
      "sourcesRef s' = []" "nextStartTimeRef s' = 0" "set (sourcesRef ?s) \<subseteq> stopped s'"
    and nxt: "\<forall>now' msg' buffer. chunkOf ?ctx msg' = Some buffer \<longrightarrow>
                 (\<exists>s''. onmessage ?ctx now' msg' s' = Inr s''
                    \<and> startAt (started s'' ! length (started s')) = max 0 now'
                    \<and> now' \<le> startAt (started s'' ! length (started s')))"
    by auto
  have len: "length (started s') = 2"
    using s'(1) by (auto simp: onmessage_def interrupt_def)
  from nxt chunkOf_one_frame [of False]
  obtain s'' where "onmessage ?ctx 4 \<lparr>inlineData = Some [0, 0], interrupted = False\<rparr> s' = Inr s''"
      "startAt (started s'' ! length (started s')) = max 0 4"
    by blast
  then have "\<exists>s''. onmessage ?ctx 4 \<lparr>inlineData = Some [0, 0], interrupted = False\<rparr> s' = Inr s''
               \<and> startAt (started s'' ! 2) = 4"
    using len by auto
  with s' show ?thesis by auto
qed

section \<open>Properties of the player\<close>


lemma stopAudio_fields:
  "isPlaying (stopAudio s) = False"
  "sourceNodeRef (stopAudio s) = None"
  "sources (stopAudio s) = sources s"
  "pausedTimeRef (stopAudio s) = pausedTimeRef s"
  "currentTime (stopAudio s) = currentTime s"
  "startTimeRef (stopAudio s) = startTimeRef s"
  "animationFrameRef (stopAudio s) = animationFrameRef s"
  "stoppedSources (stopAudio s) = stoppedSources s \<union> set_option (sourceNodeRef s)"
  "pendingFrames (stopAudio s) = filter (\<lambda>f. fst f \<noteq> animationFrameRef s) (pendingFrames s)"
  by (simp_all add: stopAudio_def cancelAnimationFrame_def Let_def split: option.split)





lemma playerInv_pausedTimeRef [simp]: "playerInv (s\<lparr>pausedTimeRef := x\<rparr>) = playerInv s"
  by (simp add: playerInv_def)

lemma playerInv_durationState [simp]: "playerInv (s\<lparr>durationState := x\<rparr>) = playerInv s"
  by (simp add: playerInv_def)







lemma sources_stopAudio_update [simp]: "sources (stopAudio s) = sources s"
  by (rule stopAudio_fields)







lemma example_decode:
  "decodeAudioData (audioUrl exampleSession) exampleContext 24000 1
     = Inr \<lparr>sampleRate = 24000, channels = [[Num 0, Num 0]]\<rparr>"
  by (simp add: exampleSession_def exampleContext_def decodeAudioData_success upt_conv_Cons)

lemma example_duration: "duration \<lparr>sampleRate = 24000, channels = [[Num 0, Num 0]]\<rparr> = 1 / 12000"
  by (simp add: duration_def frames_def)

lemma example_play:
  "handle exampleContext exampleSession mountedPlayer (0, TogglePlay)
     = \<lparr>isPlaying = True, currentTime = 0, durationState = 0, currentSubtitle = '''',
        sourceNodeRef = Some 0, startTimeRef = 0, pausedTimeRef = 0, animationFrameRef = 0,
        sources = [\<lparr>startedAt = 0, offset = 0, sourceDuration = 1 / 12000, onendedSees = False\<rparr>],
        stoppedSources = {},
        pendingFrames = [(1, \<lparr>seesPlaying = False, seesDuration = 0\<rparr>)], nextFrameId = 2\<rparr>"
  by (simp add: handle_def togglePlay_def currentRender_def startAudio_def
      example_decode [unfolded One_nat_def] example_duration requestAnimationFrame_def
      unlessThrown_def mountedPlayer_def Let_def)







text \<open>
  Claim C8. The caption for the elapsed time \<open>t\<close> is the text of the first segment, in
  list order, with \<open>startSecond \<le> t \<le> endSecond\<close>, and the empty string when no
  segment contains \<open>t\<close>; \<open>updateProgress\<close>, when it runs, shows this caption for the
  elapsed time \<open>now - startTimeRef\<close>.
\<close>

theorem activeCaption_first_match:
  "((\<exists>i<length segs. startSecond (segs ! i) \<le> t \<and> t \<le> endSecond (segs ! i)
        \<and> (\<forall>j<i. \<not> (startSecond (segs ! j) \<le> t \<and> t \<le> endSecond (segs ! j)))
        \<and> activeCaption t segs = segmentText (segs ! i))
    \<or> ((\<forall>s\<in>set segs. \<not> (startSecond s \<le> t \<and> t \<le> endSecond s))
        \<and> activeCaption t segs = ''''))
   \<and> (seesPlaying r \<longrightarrow>
        currentSubtitle (updateProgress r session now s)
          = activeCaption (now - startTimeRef s) (segments (script session)))"
proof (intro conjI impI)
  show "(\<exists>i<length segs. startSecond (segs ! i) \<le> t \<and> t \<le> endSecond (segs ! i)
        \<and> (\<forall>j<i. \<not> (startSecond (segs ! j) \<le> t \<and> t \<le> endSecond (segs ! j)))
        \<and> activeCaption t segs = segmentText (segs ! i))
    \<or> ((\<forall>s\<in>set segs. \<not> (startSecond s \<le> t \<and> t \<le> endSecond s))
        \<and> activeCaption t segs = '''')"
  proof (cases "find (\<lambda>s. startSecond s \<le> t \<and> t \<le> endSecond s) segs")
    case None
    then have "\<forall>s\<in>set segs. \<not> (startSecond s \<le> t \<and> t \<le> endSecond s)"
      by (simp only: find_None_iff) blast
    moreover have "activeCaption t segs = ''''"
      using None by (simp add: activeCaption_def)
    ultimately show ?thesis by blast
  next
    case (Some segment)
    then obtain i where "i < length segs" "startSecond (segs ! i) \<le> t \<and> t \<le> endSecond (segs ! i)"
        "segment = segs ! i" "\<forall>j<i. \<not> (startSecond (segs ! j) \<le> t \<and> t \<le> endSecond (segs ! j))"
      unfolding find_Some_iff by blast
    moreover have "activeCaption t segs = segmentText segment"
      using Some by (simp add: activeCaption_def)
    ultimately show ?thesis by blast
  qed
next
  assume "seesPlaying r"
  then show "currentSubtitle (updateProgress r session now s)
          = activeCaption (now - startTimeRef s) (segments (script session))"
    by (simp add: updateProgress_def Let_def stopAudio_def cancelAnimationFrame_def
        requestAnimationFrame_def split: option.split)
qed

theorem activeCaption_first_match_witness:
  "activeCaption 10 (segments (script exampleSession)) = ''intro''
   \<and> activeCaption 200 (segments (script exampleSession)) = ''''"
proof -
  let ?segs = "segments (script exampleSession)"
  have segs: "?segs = [\<lparr>segmentText = ''intro'', startSecond = 0, endSecond = 10\<rparr>,
                          \<lparr>segmentText = ''breathe'', startSecond = 10, endSecond = 170\<rparr>,
                          \<lparr>segmentText = ''close'', startSecond = 170, endSecond = 180\<rparr>]"
    by (simp add: exampleSession_def)
  have first: "startSecond (?segs ! 0) \<le> 10 \<and> 10 \<le> endSecond (?segs ! 0)"
    by (simp add: segs)
  have len: "0 < length ?segs" by (simp add: segs)
  note at10 = activeCaption_first_match [of ?segs 10, THEN conjunct1]
  have "activeCaption 10 ?segs = segmentText (?segs ! 0)"
    using at10
  proof
    assume "\<exists>i<length ?segs. startSecond (?segs ! i) \<le> 10 \<and> 10 \<le> endSecond (?segs ! i)
        \<and> (\<forall>j<i. \<not> (startSecond (?segs ! j) \<le> 10 \<and> 10 \<le> endSecond (?segs ! j)))
        \<and> activeCaption 10 ?segs = segmentText (?segs ! i)"
    then obtain i where i: "\<forall>j<i. \<not> (startSecond (?segs ! j) \<le> 10 \<and> 10 \<le> endSecond (?segs ! j))"
        "activeCaption 10 ?segs = segmentText (?segs ! i)"
      by blast
    have "i = 0"
    proof (rule ccontr)
      assume "i \<noteq> 0"
      then have "0 < i" by simp
      with i(1) first show False by blast
    qed
    with i(2) show ?thesis by simp
  next
    assume "(\<forall>s\<in>set ?segs. \<not> (startSecond s \<le> 10 \<and> 10 \<le> endSecond s))
        \<and> activeCaption 10 ?segs = ''''"
    moreover have "?segs ! 0 \<in> set ?segs" using len by (rule nth_mem)
    ultimately show ?thesis using first by blast
  qed
  then have a: "activeCaption 10 ?segs = ''intro''" by (simp add: segs)
  have none: "\<forall>s\<in>set ?segs. \<not> (startSecond s \<le> 200 \<and> 200 \<le> endSecond s)"
    by (simp add: segs)
  note at200 = activeCaption_first_match [of ?segs 200, THEN conjunct1]
  have b: "activeCaption 200 ?segs = ''''"
    using at200
  proof
    assume "\<exists>i<length ?segs. startSecond (?segs ! i) \<le> 200 \<and> 200 \<le> endSecond (?segs ! i)
        \<and> (\<forall>j<i. \<not> (startSecond (?segs ! j) \<le> 200 \<and> 200 \<le> endSecond (?segs ! j)))
        \<and> activeCaption 200 ?segs = segmentText (?segs ! i)"
    then obtain i where "i < length ?segs" "startSecond (?segs ! i) \<le> 200 \<and> 200 \<le> endSecond (?segs ! i)"
      by blast
    moreover from this(1) have "?segs ! i \<in> set ?segs" by (rule nth_mem)
    ultimately show ?thesis using none by blast
  next
    assume "(\<forall>s\<in>set ?segs. \<not> (startSecond s \<le> 200 \<and> 200 \<le> endSecond s))
        \<and> activeCaption 200 ?segs = ''''"
    then show ?thesis by blast
  qed
  from a b show ?thesis by simp
qed

text \<open>
  Claim C4. In a playing state \<open>togglePlay\<close> stores the elapsed time
  \<open>currentTime - startTimeRef\<close> in \<open>pausedTimeRef\<close> and stops the source; the next
  \<open>togglePlay\<close> starts a new source at exactly that offset into the buffer and sets
  \<open>startTimeRef\<close> so that the elapsed time continues from it. Starting at offset 0,
  pausing and playing again resumes at the position reached at the pause.
\<close>

theorem pause_then_play_resumes_at_offset:
  assumes "isPlaying s" and "startTimeRef s \<le> t1"
    and "decodeAudioData (audioUrl session) ctx 24000 1 = Inr audioBuffer"
  shows "(let paused = handle ctx session s (t1, TogglePlay);
              resumed = handle ctx session paused (t2, TogglePlay)
          in pausedTimeRef paused = t1 - startTimeRef s
             \<and> \<not> isPlaying paused \<and> sourceNodeRef paused = None
             \<and> set_option (sourceNodeRef s) \<subseteq> stoppedSources paused
             \<and> sources resumed
                 = sources s @ [\<lparr>startedAt = t2, offset = t1 - startTimeRef s,
                                  sourceDuration = duration audioBuffer, onendedSees = False\<rparr>]
             \<and> sourceNodeRef resumed = Some (length (sources s)) \<and> isPlaying resumed
             \<and> t2 - startTimeRef resumed = t1 - startTimeRef s)
         \<and> (t0 \<le> t1 \<longrightarrow>
              sources (runPlayer ctx session [(t0, TogglePlay), (t1, TogglePlay), (t2, TogglePlay)]
                         mountedPlayer)
                = [\<lparr>startedAt = t0, offset = 0, sourceDuration = duration audioBuffer,
                     onendedSees = False\<rparr>,
                   \<lparr>startedAt = t2, offset = t1 - t0, sourceDuration = duration audioBuffer,
                     onendedSees = False\<rparr>])"
proof -
  have pause: "handle ctx session u (t, TogglePlay) = stopAudio (u\<lparr>pausedTimeRef := t - startTimeRef u\<rparr>)"
    if "isPlaying u" for u t
    using that by (simp add: handle_def togglePlay_def currentRender_def unlessThrown_def)
  have play: "handle ctx session u (t, TogglePlay)
      = u\<lparr>sources := sources u @ [\<lparr>startedAt = t, offset = pausedTimeRef u,
                                       sourceDuration = duration audioBuffer, onendedSees = False\<rparr>],
            sourceNodeRef := Some (length (sources u)),
            startTimeRef := t - pausedTimeRef u,
            isPlaying := True,
            pendingFrames := pendingFrames u @ [(nextFrameId u, currentRender u)],
            nextFrameId := Suc (nextFrameId u)\<rparr>"
    if "\<not> isPlaying u" and "0 \<le> pausedTimeRef u" for u t
    using that assms(3)
    by (simp add: handle_def togglePlay_def currentRender_def unlessThrown_def startAudio_def
        requestAnimationFrame_def Let_def)
  have resume: "pausedTimeRef paused = t - startTimeRef u
             \<and> \<not> isPlaying paused \<and> sourceNodeRef paused = None
             \<and> set_option (sourceNodeRef u) \<subseteq> stoppedSources paused
             \<and> sources resumed
                 = sources u @ [\<lparr>startedAt = t2, offset = t - startTimeRef u,
                                  sourceDuration = duration audioBuffer, onendedSees = False\<rparr>]
             \<and> sourceNodeRef resumed = Some (length (sources u)) \<and> isPlaying resumed
             \<and> t2 - startTimeRef resumed = t - startTimeRef u"
    if u: "isPlaying u" "startTimeRef u \<le> t"
      and p: "paused = handle ctx session u (t, TogglePlay)"
      and r: "resumed = handle ctx session paused (t2, TogglePlay)"
    for u t paused resumed
  proof -
    have paused: "paused = stopAudio (u\<lparr>pausedTimeRef := t - startTimeRef u\<rparr>)"
      using p pause [OF u(1)] by simp
    then have a: "pausedTimeRef paused = t - startTimeRef u" "\<not> isPlaying paused"
        "sourceNodeRef paused = None" "sources paused = sources u"
        "set_option (sourceNodeRef u) \<subseteq> stoppedSources paused"
      by (simp_all add: stopAudio_fields)
    then have "0 \<le> pausedTimeRef paused" using u(2) by simp
    from play [OF a(2) this] r have
      "resumed = paused\<lparr>sources := sources paused @ [\<lparr>startedAt = t2, offset = pausedTimeRef paused,
                                       sourceDuration = duration audioBuffer, onendedSees = False\<rparr>],
            sourceNodeRef := Some (length (sources paused)),
            startTimeRef := t2 - pausedTimeRef paused,
            isPlaying := True,
            pendingFrames := pendingFrames paused @ [(nextFrameId paused, currentRender paused)],
            nextFrameId := Suc (nextFrameId paused)\<rparr>"
      by simp
    then have "sources resumed = sources u @ [\<lparr>startedAt = t2, offset = t - startTimeRef u,
                                  sourceDuration = duration audioBuffer, onendedSees = False\<rparr>]"
        "sourceNodeRef resumed = Some (length (sources u))" "isPlaying resumed"
        "t2 - startTimeRef resumed = t - startTimeRef u"
      using a by simp_all
    with a show ?thesis by blast
  qed
  have first: "let paused = handle ctx session s (t1, TogglePlay);
              resumed = handle ctx session paused (t2, TogglePlay)
          in pausedTimeRef paused = t1 - startTimeRef s
             \<and> \<not> isPlaying paused \<and> sourceNodeRef paused = None
             \<and> set_option (sourceNodeRef s) \<subseteq> stoppedSources paused
             \<and> sources resumed
                 = sources s @ [\<lparr>startedAt = t2, offset = t1 - startTimeRef s,
                                  sourceDuration = duration audioBuffer, onendedSees = False\<rparr>]
             \<and> sourceNodeRef resumed = Some (length (sources s)) \<and> isPlaying resumed
             \<and> t2 - startTimeRef resumed = t1 - startTimeRef s"
    unfolding Let_def using resume [OF assms(1,2) refl refl] .
  have second: "sources (runPlayer ctx session [(t0, TogglePlay), (t1, TogglePlay), (t2, TogglePlay)]
                         mountedPlayer)
                = [\<lparr>startedAt = t0, offset = 0, sourceDuration = duration audioBuffer,
                     onendedSees = False\<rparr>,
                   \<lparr>startedAt = t2, offset = t1 - t0, sourceDuration = duration audioBuffer,
                     onendedSees = False\<rparr>]"
    if "t0 \<le> t1"
  proof -
    let ?playing = "handle ctx session mountedPlayer (t0, TogglePlay)"
    have "\<not> isPlaying mountedPlayer" "0 \<le> pausedTimeRef mountedPlayer"
      by (simp_all add: mountedPlayer_def)
    from play [OF this, of t0]
    have pl: "isPlaying ?playing" "startTimeRef ?playing = t0"
      "sources ?playing = [\<lparr>startedAt = t0, offset = 0, sourceDuration = duration audioBuffer,
                     onendedSees = False\<rparr>]"
      by (simp_all add: mountedPlayer_def)
    have "startTimeRef ?playing \<le> t1" using that pl(2) by simp
    from resume [OF pl(1) this refl refl]
    have "sources (handle ctx session (handle ctx session ?playing (t1, TogglePlay)) (t2, TogglePlay))
        = sources ?playing @ [\<lparr>startedAt = t2, offset = t1 - startTimeRef ?playing,
                                  sourceDuration = duration audioBuffer, onendedSees = False\<rparr>]"
      by blast
    then show ?thesis by (simp add: runPlayer_def pl(2,3))
  qed
  from first second show ?thesis by blast
qed

theorem pause_then_play_resumes_at_offset_witness:
  "isPlaying (handle exampleContext exampleSession mountedPlayer (0, TogglePlay))
   \<and> startTimeRef (handle exampleContext exampleSession mountedPlayer (0, TogglePlay)) \<le> 5
   \<and> pausedTimeRef (handle exampleContext exampleSession
         (handle exampleContext exampleSession mountedPlayer (0, TogglePlay)) (5, TogglePlay)) = 5
   \<and> sources (runPlayer exampleContext exampleSession
         [(0, TogglePlay), (5, TogglePlay), (7, TogglePlay)] mountedPlayer)
       = [\<lparr>startedAt = 0, offset = 0, sourceDuration = 1 / 12000, onendedSees = False\<rparr>,
          \<lparr>startedAt = 7, offset = 5, sourceDuration = 1 / 12000, onendedSees = False\<rparr>]"
proof -
  let ?playing = "handle exampleContext exampleSession mountedPlayer (0, TogglePlay)"
  have p: "isPlaying ?playing"
    by (simp add: example_play)
  have z: "startTimeRef ?playing = 0"
    by (simp add: example_play)
  have t: "startTimeRef ?playing \<le> 5"
    by (simp add: z)
  note inst = pause_then_play_resumes_at_offset [OF p t example_decode, of 7 0]
  have "pausedTimeRef (handle exampleContext exampleSession ?playing (5, TogglePlay))
          = 5 - startTimeRef ?playing"
    using inst unfolding Let_def by blast
  then have a: "pausedTimeRef (handle exampleContext exampleSession ?playing (5, TogglePlay)) = 5"
    by (simp add: z)
  have "(0::real) \<le> 5" by simp
  then have "sources (runPlayer exampleContext exampleSession
         [(0, TogglePlay), (5, TogglePlay), (7, TogglePlay)] mountedPlayer)
       = [\<lparr>startedAt = 0, offset = 0,
            sourceDuration = duration \<lparr>sampleRate = 24000, channels = [[Num 0, Num 0]]\<rparr>,
            onendedSees = False\<rparr>,
          \<lparr>startedAt = 7, offset = 5 - 0,
            sourceDuration = duration \<lparr>sampleRate = 24000, channels = [[Num 0, Num 0]]\<rparr>,
            onendedSees = False\<rparr>]"
    using inst by blast
  then have b: "sources (runPlayer exampleContext exampleSession
         [(0, TogglePlay), (5, TogglePlay), (7, TogglePlay)] mountedPlayer)
       = [\<lparr>startedAt = 0, offset = 0, sourceDuration = 1 / 12000, onendedSees = False\<rparr>,
          \<lparr>startedAt = 7, offset = 5, sourceDuration = 1 / 12000, onendedSees = False\<rparr>]"
    by (simp add: example_duration)
  from p t a b show ?thesis by blast
qed




section \<open>Properties of the voice commands\<close>

lemma lookup_unknown:
  assumes "key \<notin> fst ` set obj" and "key \<notin> set objectPrototypeKeys"
  shows "getProperty obj key = Undefined"
proof -
  have "map_of obj key = None" using assms(1) by (simp add: map_of_eq_None_iff)
  then show ?thesis using assms(2) by (simp add: getProperty_def)
qed

lemma unknown_theme_is_dropped:
  assumes "intentTheme intent = Some key"
    and "key \<notin> fst ` set ThemeMap" and "key \<notin> set objectPrototypeKeys"
  shows "theme (fst (applyIntent intent s)) = theme s"
    and "intentAction intent \<in> {Some ''play'', Some ''pause'', Some ''stop''}
         \<Longrightarrow> externalPlaybackCommand (fst (applyIntent intent s)) = intentAction intent"
proof -
  have "lookupField ThemeMap (intentTheme intent) = Undefined"
    using assms by (simp add: lookupField_def lookup_unknown)
  then show "theme (fst (applyIntent intent s)) = theme s"
    by (simp add: applyIntent_def Let_def)
  show "externalPlaybackCommand (fst (applyIntent intent s)) = intentAction intent"
    if "intentAction intent \<in> {Some ''play'', Some ''pause'', Some ''stop''}"
    using that by (auto simp: applyIntent_def Let_def)
qed

lemma atlantis_is_dropped:
  "applyIntent \<lparr>intentTheme = Some ''Atlantis'', intentVoice = None, intentAction = Some ''play''\<rparr>
       initialApp
     = (\<lparr>theme = Own ZEN, voice = Own ZEPHYR,
          externalPlaybackCommand = Some ''play''\<rparr>, [ClearCommandAfter 100])"
  by (simp add: applyIntent_def initialApp_def fieldTruthy_def lookupField_def getProperty_def
      ThemeMap_def VoiceMap_def objectPrototypeKeys_def Let_def)


end
